theory Spec2Isabelle
  imports Main "HOL-Library.Char_ord" "HOL-Library.List_Lexorder"
begin

section \<open>Constants of the serialisation format\<close>

definition KEY_VALUE_SEPARATOR :: char where
  "KEY_VALUE_SEPARATOR = CHR '':''"

definition PARAM_SEPARATOR :: char where
  "PARAM_SEPARATOR = CHR '',''"

definition LIST_SEPARATOR :: char where
  "LIST_SEPARATOR = CHR ''|''"

definition ESCAPE_CHARACTER :: char where
  "ESCAPE_CHARACTER = CHR ''$''"

definition KEY_VALUE_SEPARATOR_ESCAPE :: string where
  "KEY_VALUE_SEPARATOR_ESCAPE = ''$0''"

definition PARAM_SEPARATOR_ESCAPE :: string where
  "PARAM_SEPARATOR_ESCAPE = ''$1''"

definition ESCAPE_CHARACTER_ESCAPE :: string where
  "ESCAPE_CHARACTER_ESCAPE = ''$2''"

definition EMPTY_PLACEHOLDER :: string where
  "EMPTY_PLACEHOLDER = ''[empty]''"

section \<open>Errors\<close>

text \<open>
  What a C++ call can do other than return: \<open>std::invalid_argument\<close> and
  \<open>std::out_of_range\<close> are the two exceptions of \<open>std::stoi\<close> and of
  \<open>std::string::replace\<close>; \<open>UndefinedBehaviour\<close> stands for an access the
  standard library does not define (\<open>front()\<close> of an empty string, an index beyond
  the end of a vector).
\<close>

datatype error = InvalidArgument | OutOfRange | UndefinedBehaviour

section \<open>Standard library and string utilities\<close>

text \<open>
  Modelled from the spec: \<open>Common::SplitString\<close> of \<open>common/string_util.h\<close> is not
  among the sources. The spec describes it as a utility that "divides text on a
  single-character delimiter, preserving empty fields": a text with \<open>n\<close> delimiters has
  \<open>n + 1\<close> fields.
\<close>

fun SplitString :: "string \<Rightarrow> char \<Rightarrow> string list" where
  "SplitString [] delim = [[]]"
| "SplitString (c # cs) delim =
     (if c = delim then [] # SplitString cs delim
      else (case SplitString cs delim of
              [] \<Rightarrow> [[c]]
            | f # fs \<Rightarrow> (c # f) # fs))"

text \<open>
  Modelled from the spec: \<open>Common::ReplaceAll\<close> of \<open>common/string_util.h\<close> is not
  among the sources. The spec uses it for the escaping rules ("literal \<open>:\<close> encodes as
  \<open>$0\<close>", ...): every occurrence of \<open>src\<close>, found from left to right, is replaced by
  \<open>dest\<close>, and the replacement text is not scanned again. Every call of the source has a
  non-empty \<open>src\<close>; an empty one leaves the text as it is here.
\<close>

function ReplaceAll :: "string \<Rightarrow> string \<Rightarrow> string \<Rightarrow> string" where
  "ReplaceAll result src dest =
     (if src = [] \<or> result = [] then result
      else if take (length src) result = src
        then dest @ ReplaceAll (drop (length src) result) src dest
      else hd result # ReplaceAll (tl result) src dest)"
  by pat_completeness auto
termination
  by (relation "measure (\<lambda>(result, src, dest). length result)") auto

declare ReplaceAll.simps [simp del]

text \<open>\<open>std::string::find\<close>: the first position at which \<open>t\<close> occurs, \<open>None\<close> for \<open>npos\<close>.\<close>

fun str_find :: "string \<Rightarrow> string \<Rightarrow> nat option" where
  "str_find [] t = (if t = [] then Some 0 else None)"
| "str_find (c # cs) t =
     (if take (length t) (c # cs) = t then Some 0
      else map_option Suc (str_find cs t))"

text \<open>
  \<open>std::string::replace(pos, len, t)\<close> for \<open>pos \<le> size()\<close>: the \<open>len\<close> characters from
  \<open>pos\<close> (fewer when the string ends before) are replaced by \<open>t\<close>. For \<open>pos > size()\<close>
  the call throws \<open>std::out_of_range\<close>, which the callers write out.
\<close>

definition str_replace :: "string \<Rightarrow> nat \<Rightarrow> nat \<Rightarrow> string \<Rightarrow> string" where
  "str_replace s pos len t = take pos s @ t @ drop (pos + len) s"

text \<open>\<open>std::to_string\<close> of an unsigned value: its decimal digits.\<close>

definition digit_char :: "nat \<Rightarrow> char" where
  "digit_char d = ''0123456789'' ! d"

function to_string :: "nat \<Rightarrow> string" where
  "to_string n =
     (if n < 10 then [digit_char n]
      else to_string (n div 10) @ [digit_char (n mod 10)])"
  by pat_completeness auto
termination
  by (relation "measure id") auto

declare to_string.simps [simp del]

definition isspace :: "char \<Rightarrow> bool" where
  "isspace c = (c \<in> set [CHR '' '', CHR 0x09, CHR 0x0A, CHR 0x0B, CHR 0x0C, CHR 0x0D])"

definition isdigit :: "char \<Rightarrow> bool" where
  "isdigit c = (c \<in> set ''0123456789'')"

definition digit_value :: "char \<Rightarrow> int" where
  "digit_value c = int (of_char c) - 48"

text \<open>
  \<open>std::stoi(str)\<close> in base 10: leading white space is skipped, one sign is read, then
  the longest run of digits; what follows is ignored. No digit at all throws
  \<open>std::invalid_argument\<close>, a value that does not fit a 32-bit \<open>int\<close> throws
  \<open>std::out_of_range\<close>.
\<close>

definition stoi :: "string \<Rightarrow> error + int" where
  "stoi str =
     (let t = dropWhile isspace str;
          neg = (t \<noteq> [] \<and> hd t = CHR ''-'');
          u = (if t \<noteq> [] \<and> (hd t = CHR ''-'' \<or> hd t = CHR ''+'') then tl t else t);
          ds = takeWhile isdigit u
      in if ds = [] then Inl InvalidArgument
         else
           (let v = foldl (\<lambda>a c. a * 10 + digit_value c) 0 ds;
                r = (if neg then - v else v)
            in if r < - 2147483648 \<or> 2147483647 < r then Inl OutOfRange else Inr r))"

section \<open>The regular expressions\<close>

text \<open>
  \<open>LIST_MATCH\<close> is \<^verbatim>\<open>\[(?:\[??[^\[]*?\])\<close>: an opening bracket, then lazily at most
  one more opening bracket, then lazily characters other than \<open>[\<close>, up to a closing
  bracket. \<open>scan_to_close\<close> is the lazy tail \<^verbatim>\<open>[^\[]*?\]\<close> matched at the head of a
  text: it stops at the first \<open>]\<close> and fails on a \<open>[\<close> or at the end.
\<close>

fun scan_to_close :: "string \<Rightarrow> string option" where
  "scan_to_close [] = None"
| "scan_to_close (c # cs) =
     (if c = CHR '']'' then Some [c]
      else if c = CHR ''['' then None
      else map_option ((#) c) (scan_to_close cs))"

text \<open>
  The match anchored at the head of the text. The lazy \<^verbatim>\<open>\[??\<close> first tries to take
  nothing; only when the tail fails then does it take a second \<open>[\<close>.
\<close>

definition LIST_MATCH_at :: "string \<Rightarrow> string option" where
  "LIST_MATCH_at s =
     (case s of
        [] \<Rightarrow> None
      | c # r \<Rightarrow>
          if c \<noteq> CHR ''['' then None
          else (case scan_to_close r of
                  Some m \<Rightarrow> Some (c # m)
                | None \<Rightarrow>
                    (case r of
                       [] \<Rightarrow> None
                     | c' # r' \<Rightarrow>
                         if c' \<noteq> CHR ''['' then None
                         else map_option (\<lambda>m. c # c' # m) (scan_to_close r'))))"

text \<open>
  \<open>std::regex_search(s, m, LIST_MATCH)\<close>: the leftmost match. The expression has no
  capture group, so \<open>m\<close> holds one sub-match, the whole match; the result is its text.
\<close>

fun regex_search_LIST_MATCH :: "string \<Rightarrow> string option" where
  "regex_search_LIST_MATCH [] = None"
| "regex_search_LIST_MATCH (c # cs) =
     (case LIST_MATCH_at (c # cs) of
        Some m \<Rightarrow> Some m
      | None \<Rightarrow> regex_search_LIST_MATCH cs)"

text \<open>
  The placeholder expression \<^verbatim>\<open>##([\d]+)\<close>, anchored at the head of the text: the
  result is the text of the capture group, the longest run of digits after \<open>##\<close>.
\<close>

definition placeholder_at :: "string \<Rightarrow> string option" where
  "placeholder_at s =
     (if take 2 s = ''##'' \<and> takeWhile isdigit (drop 2 s) \<noteq> []
      then Some (takeWhile isdigit (drop 2 s)) else None)"

text \<open>
  \<open>std::regex_search(str, m, std::regex("##([\\d]+)"))\<close>: the leftmost match. \<open>m\<close> holds
  two sub-matches, in this order: the whole match \<open>##N\<close> and the capture group \<open>N\<close>.
\<close>

fun regex_search_placeholder :: "string \<Rightarrow> string list option" where
  "regex_search_placeholder [] = None"
| "regex_search_placeholder (c # cs) =
     (case placeholder_at (c # cs) of
        Some g \<Rightarrow> Some [''##'' @ g, g]
      | None \<Rightarrow> regex_search_placeholder cs)"

section \<open>Placeholders\<close>

text \<open>The number of opening brackets of a text: what \<open>PlaceholderifyData\<close> uses up.\<close>

definition open_brackets :: "string \<Rightarrow> nat" where
  "open_brackets s = length (filter (\<lambda>c. c = CHR ''['') s)"

lemma str_find_Some:
  "str_find s t = Some pos \<Longrightarrow> s = take pos s @ t @ drop (pos + length t) s"
proof (induction s arbitrary: pos)
  case Nil
  then show ?case by (simp split: if_splits)
next
  case (Cons c cs)
  show ?case
  proof (cases "take (length t) (c # cs) = t")
    case True
    with Cons.prems have "pos = 0" by simp
    with True show ?thesis
      by (metis add_0 append_Nil append_take_drop_id take_0)
  next
    case False
    with Cons.prems obtain p where p: "str_find cs t = Some p" "pos = Suc p"
      by auto
    from Cons.IH [OF p(1)] p(2) show ?thesis by simp
  qed
qed

lemma LIST_MATCH_at_hd: "LIST_MATCH_at s = Some m \<Longrightarrow> \<exists>r. m = CHR ''['' # r"
  by (auto simp: LIST_MATCH_at_def split: list.splits if_splits option.splits)

lemma regex_search_LIST_MATCH_hd:
  "regex_search_LIST_MATCH s = Some m \<Longrightarrow> \<exists>r. m = CHR ''['' # r"
  by (induction s) (auto split: option.splits dest: LIST_MATCH_at_hd)

lemma digit_char_no_bracket: "d < 10 \<Longrightarrow> digit_char d \<noteq> CHR ''[''"
proof -
  assume "d < 10"
  then have "d \<in> {0, 1, 2, 3, 4, 5, 6, 7, 8, 9}" by auto
  then show ?thesis by (auto simp: digit_char_def)
qed

lemma to_string_no_bracket: "CHR ''['' \<notin> set (to_string n)"
proof (induction n rule: to_string.induct)
  case (1 n)
  show ?case
  proof (cases "n < 10")
    case True
    then show ?thesis
      using digit_char_no_bracket [of n] by (subst to_string.simps) auto
  next
    case False
    then show ?thesis
      using 1 digit_char_no_bracket [of "n mod 10"] by (subst to_string.simps) auto
  qed
qed

lemma open_brackets_replace:
  assumes "regex_search_LIST_MATCH s = Some x" and "str_find s x = Some pos"
  shows "open_brackets (str_replace s pos (length x) (''##'' @ to_string n)) < open_brackets s"
proof -
  from assms(1) obtain r where x: "x = CHR ''['' # r"
    using regex_search_LIST_MATCH_hd by blast
  have s: "s = take pos s @ x @ drop (pos + length x) s"
    using str_find_Some [OF assms(2)] .
  have "open_brackets s =
      open_brackets (take pos s) + open_brackets x + open_brackets (drop (pos + length x) s)"
    by (subst s) (simp add: open_brackets_def)
  moreover have "open_brackets x > 0"
    by (simp add: x open_brackets_def)
  moreover have "open_brackets (''##'' @ to_string n) = 0"
    using to_string_no_bracket [of n] by (auto simp: open_brackets_def filter_empty_conv)
  ultimately show ?thesis
    by (simp add: str_replace_def open_brackets_def)
qed

text \<open>
  \<open>x.str()\<close> read after \<open>s.replace\<close>. The sub-match \<open>x\<close> is a pair of iterators into
  \<open>s\<close>, and the source reads it only after \<open>s\<close> has been changed: it reads the \<open>len\<close>
  bytes from \<open>pos\<close> of the buffer of \<open>s\<close> as that buffer is then. The buffer holds the
  new text, its terminating zero byte and, when the text got shorter, behind that what is
  left of the old text. (The string keeps its buffer whenever the new text fits it, as it
  always does when the text gets no longer; the read stays inside the old text's length.)
\<close>

definition str_after_replace :: "string \<Rightarrow> string \<Rightarrow> nat \<Rightarrow> nat \<Rightarrow> string" where
  "str_after_replace old new pos len =
     take len (drop pos (new @ CHR 0x00 # drop (Suc (length new)) old))"

text \<open>
  \<open>PlaceholderifyData(str, lookup)\<close>: while \<open>LIST_MATCH\<close> is found in \<open>s\<close>, the first
  occurrence of the matched text \<open>x\<close> is replaced by \<open>##\<close> and the size of the lookup table;
  then \<open>x.str()\<close> is appended to the table. The loop over the sub-matches runs once, on
  the whole match. \<open>s.find\<close> returning \<open>npos\<close> would make \<open>s.replace\<close> throw
  \<open>std::out_of_range\<close>. The result is the text and the table.

  The search being leftmost, the first occurrence of the matched text is the match itself
  (\<open>find_is_match_position\<close> below), so \<open>pos\<close> is also where the sub-match \<open>x\<close> starts.
  Since \<open>x.str()\<close> is read after \<open>s.replace\<close>, what enters the table is not the text that
  was matched but what stands in its place afterwards: \<open>##0\<close> for the text \<open>[a]\<close>.
\<close>

function PlaceholderifyData :: "string \<Rightarrow> string list \<Rightarrow> error + (string \<times> string list)" where
  "PlaceholderifyData s lookup =
     (case regex_search_LIST_MATCH s of
        None \<Rightarrow> Inr (s, lookup)
      | Some x \<Rightarrow>
          (case str_find s x of
             None \<Rightarrow> Inl OutOfRange
           | Some pos \<Rightarrow>
               PlaceholderifyData
                 (str_replace s pos (length x) (''##'' @ to_string (length lookup)))
                 (lookup @
                    [str_after_replace s
                       (str_replace s pos (length x) (''##'' @ to_string (length lookup)))
                       pos (length x)])))"
  by pat_completeness auto
termination
proof (relation "measure (\<lambda>(s, lookup). open_brackets s)")
  show "wf (measure (\<lambda>(s, lookup). open_brackets s))" by simp
next
  fix s :: string and lookup :: "string list" and x pos
  assume "regex_search_LIST_MATCH s = Some x" and "str_find s x = Some pos"
  then have "open_brackets (str_replace s pos (length x) (''##'' @ to_string (length lookup)))
      < open_brackets s"
    by (rule open_brackets_replace)
  then show "((str_replace s pos (length x) (''##'' @ to_string (length lookup)),
      lookup @
        [str_after_replace s
           (str_replace s pos (length x) (''##'' @ to_string (length lookup))) pos (length x)]),
      (s, lookup)) \<in> measure (\<lambda>(s, lookup). open_brackets s)"
    by simp
qed

declare PlaceholderifyData.simps [simp del]

text \<open>
  The text that \<open>std::regex_search\<close> returns is found first where it was matched: no
  earlier position has a match at all, and an earlier occurrence of the text would be
  one.
\<close>

lemma scan_to_close_append:
  "scan_to_close r = Some m \<Longrightarrow> scan_to_close (m @ u) = Some m"
proof (induction r arbitrary: m)
  case Nil
  then show ?case by simp
next
  case (Cons c cs)
  then show ?case by (auto split: if_splits)
qed

lemma scan_to_close_prefix:
  "scan_to_close r = Some m \<Longrightarrow> take (length m) r = m"
  by (induction r arbitrary: m) (auto split: if_splits)

lemma LIST_MATCH_at_prefix:
  "LIST_MATCH_at t = Some x \<Longrightarrow> take (length x) t = x"
  by (auto simp: LIST_MATCH_at_def scan_to_close_prefix split: list.splits if_splits option.splits)

lemma LIST_MATCH_at_append:
  "LIST_MATCH_at t = Some x \<Longrightarrow> LIST_MATCH_at (x @ u) \<noteq> None"
  by (auto simp: LIST_MATCH_at_def scan_to_close_append split: list.splits if_splits option.splits)

lemma find_is_match_position:
  "regex_search_LIST_MATCH s = Some x \<Longrightarrow>
   \<exists>pos. str_find s x = Some pos \<and> LIST_MATCH_at (drop pos s) = Some x \<and>
         (\<forall>i < pos. LIST_MATCH_at (drop i s) = None)"
proof (induction s)
  case Nil
  then show ?case by simp
next
  case (Cons c cs)
  show ?case
  proof (cases "LIST_MATCH_at (c # cs)")
    case (Some m)
    with Cons.prems have m: "m = x" by simp
    with Some have "take (length x) (c # cs) = x"
      using LIST_MATCH_at_prefix by blast
    then have "str_find (c # cs) x = Some 0" by simp
    with Some m show ?thesis by simp
  next
    case None
    with Cons.prems have "regex_search_LIST_MATCH cs = Some x" by simp
    from Cons.IH [OF this] obtain pos where pos: "str_find cs x = Some pos"
      "LIST_MATCH_at (drop pos cs) = Some x" "\<forall>i < pos. LIST_MATCH_at (drop i cs) = None"
      by blast
    have "take (length x) (c # cs) \<noteq> x"
    proof
      assume "take (length x) (c # cs) = x"
      then have "c # cs = x @ drop (length x) (c # cs)"
        by (metis append_take_drop_id)
      then have "LIST_MATCH_at (c # cs) \<noteq> None"
        using LIST_MATCH_at_append [OF pos(2)] by metis
      with None show False by simp
    qed
    then have f: "str_find (c # cs) x = Some (Suc pos)"
      using pos(1) by simp
    have "\<forall>i < Suc pos. LIST_MATCH_at (drop i (c # cs)) = None"
    proof (intro allI impI)
      fix i assume "i < Suc pos"
      then show "LIST_MATCH_at (drop i (c # cs)) = None"
        using None pos(3) by (cases i) auto
    qed
    with f pos(2) show ?thesis by simp
  qed
qed

text \<open>The table after masking \<open>[a]\<close> holds the changed text, not the text that was masked.\<close>

lemma PlaceholderifyData_table_example:
  "PlaceholderifyData ''[a]'' [] = Inr (''##0'', [''##0''])"
  by code_simp

text \<open>
  The body of the loop of \<open>ReplacePlaceholders\<close>, run for every sub-match \<open>x\<close> of \<open>m\<close> in
  turn: \<open>str.replace(str.find("##" + x.str()), 2 + x.length(), lookup[std::stoi(x.str())])\<close>.
  \<open>std::stoi\<close> throws before the call when \<open>x\<close> does not start with a number; an index
  beyond the table is an access out of bounds; \<open>find\<close> returning \<open>npos\<close> makes \<open>replace\<close>
  throw \<open>std::out_of_range\<close>.
\<close>

fun replace_submatches :: "string list \<Rightarrow> string list \<Rightarrow> string \<Rightarrow> error + string" where
  "replace_submatches [] lookup str = Inr str"
| "replace_submatches (x # xs) lookup str =
     (case stoi x of
        Inl e \<Rightarrow> Inl e
      | Inr i \<Rightarrow>
          if i < 0 \<or> length lookup \<le> nat i then Inl UndefinedBehaviour
          else (case str_find str (''##'' @ x) of
                  None \<Rightarrow> Inl OutOfRange
                | Some pos \<Rightarrow>
                    replace_submatches xs lookup
                      (str_replace str pos (2 + length x) (lookup ! nat i))))"

lemma stoi_whole_match: "stoi (''##'' @ g) = Inl InvalidArgument"
  by (simp add: stoi_def isspace_def isdigit_def)

lemma regex_search_placeholder_Some:
  "regex_search_placeholder s = Some m \<Longrightarrow> \<exists>g. m = [''##'' @ g, g]"
  by (induction s) (auto split: option.splits)

lemma replace_submatches_throws:
  "regex_search_placeholder s = Some m \<Longrightarrow>
   replace_submatches m lookup str = Inl InvalidArgument"
  using regex_search_placeholder_Some [of s m] stoi_whole_match by auto

text \<open>
  \<open>ReplacePlaceholders(str, lookup)\<close>: while the placeholder expression is found in \<open>str\<close>,
  the loop body runs over the sub-matches of the match. The first sub-match is the whole
  match \<open>##N\<close>, on which \<open>std::stoi\<close> throws, so the loop never comes to a second search:
  that is the termination argument.
\<close>

function ReplacePlaceholders :: "string \<Rightarrow> string list \<Rightarrow> error + string" where
  "ReplacePlaceholders str lookup =
     (case regex_search_placeholder str of
        None \<Rightarrow> Inr str
      | Some m \<Rightarrow>
          (case replace_submatches m lookup str of
             Inl e \<Rightarrow> Inl e
           | Inr str' \<Rightarrow> ReplacePlaceholders str' lookup))"
  by pat_completeness auto
termination
proof (relation "{}")
  show "wf {}" by simp
next
  fix str :: string and lookup :: "string list" and m str'
  assume "regex_search_placeholder str = Some m"
    and "replace_submatches m lookup str = Inr str'"
  then have False
    using replace_submatches_throws [of str m lookup str] by simp
  then show "((str', lookup), (str, lookup)) \<in> {}" ..
qed

declare ReplacePlaceholders.simps [simp del]

section \<open>The container\<close>

text \<open>
  \<open>DataType\<close> is \<open>std::map<std::string, std::string>\<close>: the pairs in strictly increasing
  order of their keys, which is the order of iteration. \<open>std::string\<close> compares byte by
  byte, as the lexicographic order on \<open>char list\<close> does.
\<close>

type_synonym DataType = "(string \<times> string) list"

fun insert_or_assign :: "string \<Rightarrow> string \<Rightarrow> DataType \<Rightarrow> DataType" where
  "insert_or_assign k v [] = [(k, v)]"
| "insert_or_assign k v ((k', v') # xs) =
     (if k < k' then (k, v) # (k', v') # xs
      else if k = k' then (k, v) # xs
      else (k', v') # insert_or_assign k v xs)"

text \<open>\<open>data.find(key)\<close>: the value under the key, \<open>None\<close> for \<open>data.end()\<close>.\<close>

definition find_key :: "DataType \<Rightarrow> string \<Rightarrow> string option" where
  "find_key data key = map_of data key"

text \<open>The invariant of \<open>std::map\<close>: keys strictly increasing.\<close>

definition wf_data :: "DataType \<Rightarrow> bool" where
  "wf_data data = sorted_wrt (<) (map fst data)"

subsection \<open>Setters\<close>

definition Set_string :: "string \<Rightarrow> string \<Rightarrow> DataType \<Rightarrow> DataType" where
  "Set_string key val data = insert_or_assign key val data"

text \<open>\<open>fmt::join(value, "|")\<close> on texts.\<close>

fun join :: "string list \<Rightarrow> string \<Rightarrow> string" where
  "join [] sep = []"
| "join [x] sep = x"
| "join (x # y # ys) sep = x @ sep @ join (y # ys) sep"

definition Set_string_vec :: "string \<Rightarrow> string list \<Rightarrow> DataType \<Rightarrow> DataType" where
  "Set_string_vec key val data =
     insert_or_assign key (''['' @ join val [LIST_SEPARATOR] @ '']'') data"

subsection \<open>Serialize\<close>

text \<open>The three replacements applied to a key and to a value, in the source's order.\<close>

definition escape :: "string \<Rightarrow> string" where
  "escape part =
     ReplaceAll
       (ReplaceAll
          (ReplaceAll part [ESCAPE_CHARACTER] ESCAPE_CHARACTER_ESCAPE)
          [PARAM_SEPARATOR] PARAM_SEPARATOR_ESCAPE)
       [KEY_VALUE_SEPARATOR] KEY_VALUE_SEPARATOR_ESCAPE"

fun serialize_pairs :: "DataType \<Rightarrow> string" where
  "serialize_pairs [] = []"
| "serialize_pairs ((k, v) # ps) =
     escape k @ [KEY_VALUE_SEPARATOR] @ escape v @ [PARAM_SEPARATOR] @ serialize_pairs ps"

definition Serialize :: "DataType \<Rightarrow> string" where
  "Serialize data =
     (if data = [] then EMPTY_PLACEHOLDER else butlast (serialize_pairs data))"

text \<open>
  \<open>Set(key, ParamPackage value)\<close> stores \<open>value.Serialize()\<close> as it is.
  \<open>Set(key, std::vector<ParamPackage> value)\<close> formats every element with the
  \<open>fmt::formatter\<close> of the file, which is \<open>Serialize\<close>.
\<close>

definition Set_package :: "string \<Rightarrow> DataType \<Rightarrow> DataType \<Rightarrow> DataType" where
  "Set_package key val data = insert_or_assign key (Serialize val) data"

definition Set_package_vec :: "string \<Rightarrow> DataType list \<Rightarrow> DataType \<Rightarrow> DataType" where
  "Set_package_vec key val data =
     insert_or_assign key (''['' @ join (map Serialize val) [LIST_SEPARATOR] @ '']'') data"

subsection \<open>The deserialising constructor\<close>

definition unescape :: "string \<Rightarrow> string" where
  "unescape part =
     ReplaceAll
       (ReplaceAll
          (ReplaceAll part KEY_VALUE_SEPARATOR_ESCAPE [KEY_VALUE_SEPARATOR])
          PARAM_SEPARATOR_ESCAPE [PARAM_SEPARATOR])
       ESCAPE_CHARACTER_ESCAPE [ESCAPE_CHARACTER]"

text \<open>One turn of the loop over the pairs: a pair that does not split in two is skipped.\<close>

definition parse_pair :: "string \<Rightarrow> DataType \<Rightarrow> DataType" where
  "parse_pair pair data =
     (let key_value = SplitString pair KEY_VALUE_SEPARATOR
      in if length key_value \<noteq> 2 then data
         else Set_string (unescape (key_value ! 0)) (unescape (key_value ! 1)) data)"

fun parse_pairs :: "string list \<Rightarrow> DataType \<Rightarrow> DataType" where
  "parse_pairs [] data = data"
| "parse_pairs (pair # pairs) data = parse_pairs pairs (parse_pair pair data)"

text \<open>The last loop: the placeholders of every value are replaced, in key order.\<close>

fun restore_values :: "DataType \<Rightarrow> string list \<Rightarrow> error + DataType" where
  "restore_values [] lookup = Inr []"
| "restore_values ((key, val) # rest) lookup =
     (case ReplacePlaceholders val lookup of
        Inl e \<Rightarrow> Inl e
      | Inr val' \<Rightarrow>
          (case restore_values rest lookup of
             Inl e \<Rightarrow> Inl e
           | Inr rest' \<Rightarrow> Inr ((key, val') # rest')))"

definition ParamPackage :: "string \<Rightarrow> error + DataType" where
  "ParamPackage serialized =
     (if serialized = EMPTY_PLACEHOLDER then Inr []
      else (case PlaceholderifyData serialized [] of
              Inl e \<Rightarrow> Inl e
            | Inr (s, lookup) \<Rightarrow>
                restore_values (parse_pairs (SplitString s PARAM_SEPARATOR) []) lookup))"

subsection \<open>Getters\<close>

definition Get_string :: "string \<Rightarrow> string \<Rightarrow> DataType \<Rightarrow> string" where
  "Get_string key default_value data =
     (case find_key data key of
        None \<Rightarrow> default_value
      | Some val \<Rightarrow> val)"

text \<open>
  \<open>front()\<close> and \<open>back()\<close> of an empty \<open>std::string\<close> are not defined; the getters that
  look at the brackets call them on whatever is stored.
\<close>

definition Get_string_vec :: "string \<Rightarrow> string list \<Rightarrow> DataType \<Rightarrow> error + string list" where
  "Get_string_vec key default_value data =
     (case find_key data key of
        None \<Rightarrow> Inr default_value
      | Some val \<Rightarrow>
          if val = [] then Inl UndefinedBehaviour
          else if hd val = CHR ''['' \<and> last val = CHR '']''
            then Inr (SplitString (take (length val - 2) (drop 1 val)) LIST_SEPARATOR)
          else Inr default_value)"

definition Get_int :: "string \<Rightarrow> int \<Rightarrow> DataType \<Rightarrow> int" where
  "Get_int key default_value data =
     (case find_key data key of
        None \<Rightarrow> default_value
      | Some val \<Rightarrow>
          (case stoi val of
             Inl e \<Rightarrow> default_value
           | Inr i \<Rightarrow> i))"

text \<open>The loop of the list-of-int getter: the first element that does not parse ends it.\<close>

fun stoi_all :: "string list \<Rightarrow> int list \<Rightarrow> error + int list" where
  "stoi_all [] vec = Inr vec"
| "stoi_all (str # strs) vec =
     (case stoi str of
        Inl e \<Rightarrow> Inl e
      | Inr i \<Rightarrow> stoi_all strs (vec @ [i]))"

definition Get_int_vec :: "string \<Rightarrow> int list \<Rightarrow> DataType \<Rightarrow> error + int list" where
  "Get_int_vec key default_value data =
     (case Get_string_vec key [] data of
        Inl e \<Rightarrow> Inl e
      | Inr vec0 \<Rightarrow>
          if vec0 = [] then Inr default_value
          else (case stoi_all vec0 [] of
                  Inl e \<Rightarrow> Inr default_value
                | Inr vec \<Rightarrow> Inr vec))"

definition Get_package :: "string \<Rightarrow> DataType \<Rightarrow> DataType \<Rightarrow> error + DataType" where
  "Get_package key default_value data =
     (case find_key data key of
        None \<Rightarrow> Inr default_value
      | Some stored \<Rightarrow>
          if stored = [] then Inl UndefinedBehaviour
          else if hd stored = CHR ''['' \<and> last stored = CHR '']''
            then (let val = take (length stored - 2) (drop 1 stored)
                  in case PlaceholderifyData val [] of
                       Inl e \<Rightarrow> Inl e
                     | Inr (chk, lookup) \<Rightarrow>
                         if LIST_SEPARATOR \<in> set chk then Inr default_value
                         else if PARAM_SEPARATOR \<notin> set chk then Inr default_value
                         else ParamPackage val)
          else Inr default_value)"

fun restore_all :: "string list \<Rightarrow> string list \<Rightarrow> error + string list" where
  "restore_all [] lookup = Inr []"
| "restore_all (x # xs) lookup =
     (case ReplacePlaceholders x lookup of
        Inl e \<Rightarrow> Inl e
      | Inr x' \<Rightarrow>
          (case restore_all xs lookup of
             Inl e \<Rightarrow> Inl e
           | Inr xs' \<Rightarrow> Inr (x' # xs')))"

fun construct_all :: "string list \<Rightarrow> error + DataType list" where
  "construct_all [] = Inr []"
| "construct_all (x # xs) =
     (case ParamPackage x of
        Inl e \<Rightarrow> Inl e
      | Inr p \<Rightarrow>
          (case construct_all xs of
             Inl e \<Rightarrow> Inl e
           | Inr ps \<Rightarrow> Inr (p # ps)))"

definition Get_package_vec :: "string \<Rightarrow> DataType list \<Rightarrow> DataType \<Rightarrow> error + DataType list" where
  "Get_package_vec key default_value data =
     (case find_key data key of
        None \<Rightarrow> Inr default_value
      | Some stored \<Rightarrow>
          if stored = [] then Inl UndefinedBehaviour
          else if hd stored = CHR ''['' \<and> last stored = CHR '']''
            then (case PlaceholderifyData (take (length stored - 2) (drop 1 stored)) [] of
                    Inl e \<Rightarrow> Inl e
                  | Inr (val, lookup) \<Rightarrow>
                      if PARAM_SEPARATOR \<notin> set val then Inr default_value
                      else (case restore_all (SplitString val LIST_SEPARATOR) lookup of
                              Inl e \<Rightarrow> Inl e
                            | Inr vec \<Rightarrow> construct_all vec))
          else Inr default_value)"

definition Has :: "string \<Rightarrow> DataType \<Rightarrow> bool" where
  "Has key data = (find_key data key \<noteq> None)"

section \<open>Classes of containers\<close>

text \<open>
  The texts the placeholder mechanism leaves alone: no opening bracket in a key or a
  value (nothing for \<open>LIST_MATCH\<close> to find), and no \<open>##\<close> followed by a digit in a
  value (nothing for the placeholder expression to find).
\<close>

definition no_brackets :: "DataType \<Rightarrow> bool" where
  "no_brackets data =
     list_all (\<lambda>p. CHR ''['' \<notin> set (fst p) \<and> CHR ''['' \<notin> set (snd p)) data"

definition no_placeholders :: "DataType \<Rightarrow> bool" where
  "no_placeholders data = list_all (\<lambda>p. regex_search_placeholder (snd p) = None) data"

text \<open>Texts with none of the characters \<open>[\<close>, \<open>|\<close> and \<open>#\<close>, and containers made of them.\<close>

definition plain_text :: "string \<Rightarrow> bool" where
  "plain_text s = (CHR ''['' \<notin> set s \<and> CHR ''|'' \<notin> set s \<and> CHR ''#'' \<notin> set s)"

definition plain_data :: "DataType \<Rightarrow> bool" where
  "plain_data data = list_all (\<lambda>p. plain_text (fst p) \<and> plain_text (snd p)) data"

section \<open>Escaping is inverted by unescaping\<close>

lemma ReplaceAll_Nil: "ReplaceAll [] src dest = []"
  by (subst ReplaceAll.simps) simp

lemma ReplaceAll_char_Cons:
  "ReplaceAll (x # r) [c] dest = (if x = c then dest else [x]) @ ReplaceAll r [c] dest"
  by (subst ReplaceAll.simps) simp

lemma ReplaceAll_char_append:
  "ReplaceAll (a @ b) [c] dest = ReplaceAll a [c] dest @ ReplaceAll b [c] dest"
  by (induction a) (simp_all add: ReplaceAll_Nil ReplaceAll_char_Cons)

lemma ReplaceAll_two_hit:
  "ReplaceAll (a # b # r) [a, b] dest = dest @ ReplaceAll r [a, b] dest"
  by (subst ReplaceAll.simps) simp

lemma ReplaceAll_two_miss_first:
  "x \<noteq> a \<Longrightarrow> ReplaceAll (x # r) [a, b] dest = x # ReplaceAll r [a, b] dest"
  by (subst ReplaceAll.simps) (cases r; simp)

lemma ReplaceAll_two_miss_second:
  "y \<noteq> b \<Longrightarrow> ReplaceAll (a # y # r) [a, b] dest = a # ReplaceAll (y # r) [a, b] dest"
  by (subst ReplaceAll.simps) simp

definition escape_char :: "char \<Rightarrow> string" where
  "escape_char c =
     (if c = CHR ''$'' then ''$2'' else if c = CHR '','' then ''$1''
      else if c = CHR '':'' then ''$0'' else [c])"

lemma escape_Nil: "escape [] = []"
  by (simp add: escape_def ReplaceAll_Nil)

lemma escape_Cons: "escape (c # s) = escape_char c @ escape s"
  by (simp add: escape_def escape_char_def ReplaceAll_char_Cons ReplaceAll_char_append
      ReplaceAll_Nil ESCAPE_CHARACTER_def ESCAPE_CHARACTER_ESCAPE_def PARAM_SEPARATOR_def
      PARAM_SEPARATOR_ESCAPE_def KEY_VALUE_SEPARATOR_def KEY_VALUE_SEPARATOR_ESCAPE_def)

lemma escape_concat: "escape s = concat (map escape_char s)"
  by (induction s) (simp_all add: escape_Nil escape_Cons)

definition unescape0 :: "char \<Rightarrow> string" where
  "unescape0 c = (if c = CHR ''$'' then ''$2'' else if c = CHR '','' then ''$1'' else [c])"

definition unescape1 :: "char \<Rightarrow> string" where
  "unescape1 c = (if c = CHR ''$'' then ''$2'' else [c])"

lemma unescape_step0:
  "ReplaceAll (concat (map escape_char s)) ''$0'' '':'' = concat (map unescape0 s)"
  by (induction s)
     (simp_all add: ReplaceAll_Nil escape_char_def unescape0_def ReplaceAll_two_hit
       ReplaceAll_two_miss_first ReplaceAll_two_miss_second)

lemma unescape_step1:
  "ReplaceAll (concat (map unescape0 s)) ''$1'' '','' = concat (map unescape1 s)"
  by (induction s)
     (simp_all add: ReplaceAll_Nil unescape0_def unescape1_def ReplaceAll_two_hit
       ReplaceAll_two_miss_first ReplaceAll_two_miss_second)

lemma unescape_step2:
  "ReplaceAll (concat (map unescape1 s)) ''$2'' ''$'' = s"
  by (induction s)
     (simp_all add: ReplaceAll_Nil unescape1_def ReplaceAll_two_hit
       ReplaceAll_two_miss_first ReplaceAll_two_miss_second)

lemma unescape_escape: "unescape (escape s) = s"
  by (simp add: unescape_def escape_concat unescape_step0 unescape_step1 unescape_step2
      ESCAPE_CHARACTER_def ESCAPE_CHARACTER_ESCAPE_def PARAM_SEPARATOR_def
      PARAM_SEPARATOR_ESCAPE_def KEY_VALUE_SEPARATOR_def KEY_VALUE_SEPARATOR_ESCAPE_def)

lemma set_escape: "set (escape s) \<subseteq> (set s - {CHR '':'', CHR '',''}) \<union> set ''$012''"
  by (auto simp: escape_concat escape_char_def split: if_splits)

section \<open>Splitting\<close>

lemma SplitString_not_Nil: "SplitString s d \<noteq> []"
  by (induction s) (auto split: list.splits)

lemma SplitString_no_delim: "d \<notin> set a \<Longrightarrow> SplitString a d = [a]"
  by (induction a) auto

lemma SplitString_append:
  "d \<notin> set a \<Longrightarrow> SplitString (a @ d # b) d = a # SplitString b d"
  by (induction a) (auto split: list.splits)


section \<open>The constructor on the text of Serialize\<close>

text \<open>The text of one pair in the output of \<open>Serialize\<close>.\<close>

definition pair_text :: "string \<times> string \<Rightarrow> string" where
  "pair_text p = escape (fst p) @ [KEY_VALUE_SEPARATOR] @ escape (snd p)"

lemma serialize_pairs_Cons:
  "serialize_pairs (p # ps) = pair_text p @ [PARAM_SEPARATOR] @ serialize_pairs ps"
  by (cases p) (simp add: pair_text_def)

lemma serialize_pairs_eq_Nil: "serialize_pairs ps = [] \<longleftrightarrow> ps = []"
  by (cases ps) (simp_all add: serialize_pairs_Cons)

lemma butlast_serialize_pairs:
  "butlast (serialize_pairs (p # ps)) =
     (if ps = [] then pair_text p
      else pair_text p @ [PARAM_SEPARATOR] @ butlast (serialize_pairs ps))"
  by (simp add: serialize_pairs_Cons butlast_append serialize_pairs_eq_Nil)

lemma separators_not_in_escape:
  "PARAM_SEPARATOR \<notin> set (escape s)" "KEY_VALUE_SEPARATOR \<notin> set (escape s)"
  using set_escape [of s] by (auto simp: PARAM_SEPARATOR_def KEY_VALUE_SEPARATOR_def)

lemma PARAM_SEPARATOR_not_in_pair_text: "PARAM_SEPARATOR \<notin> set (pair_text p)"
  by (simp add: pair_text_def separators_not_in_escape)
     (simp add: PARAM_SEPARATOR_def KEY_VALUE_SEPARATOR_def)

lemma SplitString_Serialize:
  "data \<noteq> [] \<Longrightarrow>
   SplitString (butlast (serialize_pairs data)) PARAM_SEPARATOR = map pair_text data"
proof (induction data)
  case Nil
  then show ?case by simp
next
  case (Cons p ps)
  show ?case
  proof (cases "ps = []")
    case True
    then show ?thesis
      by (simp add: butlast_serialize_pairs SplitString_no_delim
          PARAM_SEPARATOR_not_in_pair_text)
  next
    case False
    with Cons.IH show ?thesis
      by (simp add: butlast_serialize_pairs SplitString_append
          PARAM_SEPARATOR_not_in_pair_text)
  qed
qed

lemma parse_pair_pair_text:
  "parse_pair (pair_text (k, v)) data = insert_or_assign k v data"
  by (simp add: parse_pair_def pair_text_def SplitString_append SplitString_no_delim
      separators_not_in_escape unescape_escape Set_string_def)

lemma insert_or_assign_last:
  "\<forall>k' \<in> set (map fst acc). k' < k \<Longrightarrow> insert_or_assign k v acc = acc @ [(k, v)]"
  by (induction acc) auto

lemma parse_pairs_sorted:
  "sorted_wrt (<) (map fst (acc @ data)) \<Longrightarrow>
   parse_pairs (map pair_text data) acc = acc @ data"
proof (induction data arbitrary: acc)
  case Nil
  then show ?case by simp
next
  case (Cons p ps)
  obtain k v where p: "p = (k, v)" by (cases p)
  from Cons.prems have less: "\<forall>k' \<in> set (map fst acc). k' < k"
    by (auto simp: p sorted_wrt_append)
  from Cons.prems have "sorted_wrt (<) (map fst ((acc @ [p]) @ ps))" by simp
  from Cons.IH [OF this] less show ?case
    by (simp add: p parse_pair_pair_text insert_or_assign_last)
qed

lemma LIST_MATCH_none: "CHR ''['' \<notin> set s \<Longrightarrow> regex_search_LIST_MATCH s = None"
  by (induction s) (auto simp: LIST_MATCH_at_def)

lemma PlaceholderifyData_plain:
  "CHR ''['' \<notin> set s \<Longrightarrow> PlaceholderifyData s lookup = Inr (s, lookup)"
  by (subst PlaceholderifyData.simps) (simp add: LIST_MATCH_none)

lemma ReplacePlaceholders_plain:
  "regex_search_placeholder s = None \<Longrightarrow> ReplacePlaceholders s lookup = Inr s"
  by (subst ReplacePlaceholders.simps) simp

lemma placeholder_none: "CHR ''#'' \<notin> set s \<Longrightarrow> regex_search_placeholder s = None"
  by (induction s) (auto simp: placeholder_at_def)

lemma restore_values_plain:
  "list_all (\<lambda>p. regex_search_placeholder (snd p) = None) data \<Longrightarrow>
   restore_values data lookup = Inr data"
  by (induction data) (auto simp: ReplacePlaceholders_plain)

lemma set_pair_text:
  "set (pair_text p) \<subseteq> set (fst p) \<union> set (snd p) \<union> set ''$012:''"
  using set_escape [of "fst p"] set_escape [of "snd p"]
  by (auto simp: pair_text_def KEY_VALUE_SEPARATOR_def)

lemma set_serialize_pairs:
  "set (serialize_pairs data) \<subseteq>
     (\<Union>p \<in> set data. set (fst p) \<union> set (snd p)) \<union> set ''$012:,''"
proof (induction data)
  case Nil
  then show ?case by simp
next
  case (Cons p ps)
  have "set (serialize_pairs (p # ps)) =
      set (pair_text p) \<union> {PARAM_SEPARATOR} \<union> set (serialize_pairs ps)"
    by (simp add: serialize_pairs_Cons)
  with Cons.IH set_pair_text [of p] show ?case
    by (auto simp: PARAM_SEPARATOR_def)
qed

lemma set_Serialize:
  "data \<noteq> [] \<Longrightarrow>
   set (Serialize data) \<subseteq> (\<Union>p \<in> set data. set (fst p) \<union> set (snd p)) \<union> set ''$012:,''"
  using set_serialize_pairs [of data] in_set_butlastD [of _ "serialize_pairs data"]
  by (auto simp: Serialize_def)

lemma Serialize_no_bracket:
  assumes "data \<noteq> []" and "no_brackets data"
  shows "CHR ''['' \<notin> set (Serialize data)"
proof
  assume "CHR ''['' \<in> set (Serialize data)"
  with set_Serialize [OF assms(1)]
  have "CHR ''['' \<in> (\<Union>p \<in> set data. set (fst p) \<union> set (snd p)) \<union> set ''$012:,''"
    by blast
  with assms(2) show False
    by (auto simp: no_brackets_def list_all_iff)
qed

text \<open>
  For a container whose keys and values contain no opening bracket and whose values
  contain no \<open>##\<close> followed by a digit, the constructor on the text of \<open>Serialize\<close>
  returns the container.
\<close>

lemma ParamPackage_Serialize:
  assumes "wf_data data" and "no_brackets data" and "no_placeholders data"
  shows "ParamPackage (Serialize data) = Inr data"
proof (cases "data = []")
  case True
  then show ?thesis by (simp add: Serialize_def ParamPackage_def)
next
  case False
  have nb: "CHR ''['' \<notin> set (Serialize data)"
    using False assms(2) by (rule Serialize_no_bracket)
  then have ne: "Serialize data \<noteq> EMPTY_PLACEHOLDER"
    by (auto simp: EMPTY_PLACEHOLDER_def)
  have split: "SplitString (Serialize data) PARAM_SEPARATOR = map pair_text data"
    using False by (simp add: Serialize_def SplitString_Serialize)
  have "parse_pairs (map pair_text data) [] = [] @ data"
    using assms(1) by (intro parse_pairs_sorted) (simp add: wf_data_def)
  then have parsed: "parse_pairs (map pair_text data) [] = data" by simp
  have "restore_values data [] = Inr data"
    using assms(3) by (simp add: no_placeholders_def restore_values_plain)
  with ne nb split parsed show ?thesis
    by (simp add: ParamPackage_def PlaceholderifyData_plain)
qed


lemma find_key_insert_or_assign: "find_key (insert_or_assign k v data) k = Some v"
  by (induction data) (auto simp: find_key_def)

lemma plain_data_Serialize:
  assumes "data \<noteq> []" and "plain_data data"
  shows "CHR ''['' \<notin> set (Serialize data)" "CHR ''|'' \<notin> set (Serialize data)"
    "CHR ''#'' \<notin> set (Serialize data)"
  using set_Serialize [OF assms(1)] assms(2)
  by (auto simp: plain_data_def plain_text_def list_all_iff)

lemma plain_data_roundtrip:
  assumes "wf_data data" and "plain_data data"
  shows "ParamPackage (Serialize data) = Inr data"
  using assms
  by (intro ParamPackage_Serialize)
     (auto simp: plain_data_def plain_text_def no_brackets_def no_placeholders_def
       list_all_iff placeholder_none)

lemma PARAM_SEPARATOR_in_Serialize:
  "2 \<le> length data \<Longrightarrow> PARAM_SEPARATOR \<in> set (Serialize data)"
proof -
  assume "2 \<le> length data"
  then obtain p q r where "data = p # q # r"
    by (cases data; cases "tl data") auto
  then show ?thesis
    by (simp add: Serialize_def butlast_serialize_pairs)
qed

lemma Get_package_vec_bracketed:
  assumes "find_key data key = Some (''['' @ val @ '']'')"
    and "PlaceholderifyData val [] = Inr (val, [])"
    and "PARAM_SEPARATOR \<in> set val"
    and "restore_all (SplitString val LIST_SEPARATOR) [] = Inr vec"
  shows "Get_package_vec key d data = construct_all vec"
proof -
  have "take (length (''['' @ val @ '']'') - 2) (drop 1 (''['' @ val @ '']'')) = val"
    by simp
  with assms show ?thesis
    unfolding Get_package_vec_def by simp
qed

section \<open>The empty container\<close>

text \<open>
  C9. A default-constructed container, the empty map, serialises to the literal
  \<open>[empty]\<close>; the container constructed from \<open>[empty]\<close> is the empty map, and \<open>Has\<close>
  is false on it for every key.
\<close>

theorem empty_container_sentinel:
  "Serialize [] = ''[empty]'' \<and> ParamPackage ''[empty]'' = Inr [] \<and> Has k [] = False"
  by (simp add: Serialize_def ParamPackage_def EMPTY_PLACEHOLDER_def Has_def find_key_def)

section \<open>Malformed pairs\<close>

lemma parse_pairs_append:
  "parse_pairs (xs @ ys) data = parse_pairs ys (parse_pairs xs data)"
  by (induction xs arbitrary: data) simp_all

lemma ParamPackage_malformed_example:
  "ParamPackage ''a:1,bad,c:3'' = Inr [(''a'', ''1''), (''c'', ''3'')]"
  by code_simp

text \<open>
  C8. In the loop of the deserialising constructor, a pair that does not split into
  exactly two parts on the key/value separator changes nothing: the loop goes on with
  the pairs after it, from the container the pairs before it have built. Constructing
  from \<open>a:1,bad,c:3\<close> gives exactly the mappings \<open>a=1\<close> and \<open>c=3\<close>.
\<close>

theorem malformed_pair_skipped:
  "(length (SplitString pair KEY_VALUE_SEPARATOR) \<noteq> 2 \<longrightarrow>
      parse_pairs (before @ pair # after) data = parse_pairs (before @ after) data) \<and>
   ParamPackage ''a:1,bad,c:3'' = Inr [(''a'', ''1''), (''c'', ''3'')]"
  by (simp add: parse_pairs_append parse_pair_def ParamPackage_malformed_example)

theorem malformed_pair_skipped_witness:
  "length (SplitString ''bad'' KEY_VALUE_SEPARATOR) \<noteq> 2 \<and>
   parse_pairs [''a:1'', ''bad'', ''c:3''] [] = parse_pairs [''a:1'', ''c:3''] [] \<and>
   parse_pairs [''a:1'', ''c:3''] [] = [(''a'', ''1''), (''c'', ''3'')]"
proof -
  have h: "length (SplitString ''bad'' KEY_VALUE_SEPARATOR) \<noteq> 2"
    by (simp add: KEY_VALUE_SEPARATOR_def)
  have e: "parse_pairs [''a:1'', ''c:3''] [] = [(''a'', ''1''), (''c'', ''3'')]"
    by code_simp
  from malformed_pair_skipped [of "''bad''" "[''a:1'']" "[''c:3'']" "[]"] h e
  show ?thesis by simp
qed

section \<open>The list-of-int getter\<close>

lemma stoi_all_fails:
  "\<exists>str \<in> set strs. isl (stoi str) \<Longrightarrow> isl (stoi_all strs vec)"
  by (induction strs arbitrary: vec) (auto split: sum.splits)

lemma stoi_all_succeeds:
  "list_all (\<lambda>str. \<not> isl (stoi str)) strs \<Longrightarrow>
   stoi_all strs vec = Inr (vec @ map (\<lambda>str. projr (stoi str)) strs)"
proof (induction strs arbitrary: vec)
  case Nil
  then show ?case by simp
next
  case (Cons str strs)
  then obtain i where i: "stoi str = Inr i"
    by (cases "stoi str") auto
  with Cons show ?case by simp
qed

text \<open>
  What the list-of-int getter returns, for every key, default and container. It decodes
  the stored value as a list of strings first. When that call returns the empty list,
  or a list with an element on which \<open>std::stoi\<close> throws, the getter returns its default;
  otherwise it returns the numbers of all the elements, in their order. It has no other
  outcome than those of the string decode.
\<close>

lemma Get_int_vec_cases:
  "Get_int_vec key d data =
     (case Get_string_vec key [] data of
        Inl e \<Rightarrow> Inl e
      | Inr vec0 \<Rightarrow>
          if vec0 = [] \<or> list_ex (\<lambda>str. isl (stoi str)) vec0 then Inr d
          else Inr (map (\<lambda>str. projr (stoi str)) vec0))"
proof (cases "Get_string_vec key [] data")
  case (Inl e)
  then show ?thesis by (simp add: Get_int_vec_def)
next
  case (Inr vec0)
  show ?thesis
  proof (cases "list_ex (\<lambda>str. isl (stoi str)) vec0")
    case True
    then have "isl (stoi_all vec0 [])"
      using stoi_all_fails [of vec0 "[]"] by (simp add: list_ex_iff)
    with Inr True show ?thesis
      by (auto simp: Get_int_vec_def split: sum.splits)
  next
    case False
    then have "list_all (\<lambda>str. \<not> isl (stoi str)) vec0"
      by (simp add: list_ex_iff list_all_iff)
    from stoi_all_succeeds [OF this, of "[]"] Inr False show ?thesis
      by (simp add: Get_int_vec_def)
  qed
qed

lemma Get_int_vec_examples:
  "Get_int_vec ''k'' [7] [(''k'', ''12'')] = Inr [7] \<and>
   Get_int_vec ''k'' [7] [(''k'', ''[1|2|x]'')] = Inr [7] \<and>
   Get_int_vec ''k'' [7] [(''k'', ''[1|-2|30]'')] = Inr [1, - 2, 30]"
  by code_simp


section \<open>Round trips\<close>

text \<open>
  C5 (as stated, refuted). With the key \<open>[a]\<close> and the value \<open>v\<close>, which is not the empty
  sentinel, the reconstructed container holds \<open>v\<close> under the key \<open>##0\<close>, and
  \<open>Get("[a]", "")\<close> returns the default.
\<close>

theorem scalar_roundtrip_counterexample:
  "\<not> (\<forall>k v. v \<noteq> EMPTY_PLACEHOLDER \<longrightarrow>
        (\<exists>p. ParamPackage (Serialize (Set_string k v [])) = Inr p \<and> Get_string k [] p = v))"
proof
  assume a: "\<forall>k v. v \<noteq> EMPTY_PLACEHOLDER \<longrightarrow>
        (\<exists>p. ParamPackage (Serialize (Set_string k v [])) = Inr p \<and> Get_string k [] p = v)"
  have ne: "''v'' \<noteq> EMPTY_PLACEHOLDER"
    by (simp add: EMPTY_PLACEHOLDER_def)
  have c: "ParamPackage (Serialize (Set_string ''[a]'' ''v'' [])) = Inr [(''##0'', ''v'')]"
    by code_simp
  have g: "Get_string ''[a]'' [] [(''##0'', ''v'')] = []"
    by code_simp
  from a ne obtain p where
    "ParamPackage (Serialize (Set_string ''[a]'' ''v'' [])) = Inr p" "Get_string ''[a]'' [] p = ''v''"
    by blast
  with c g show False by simp
qed

text \<open>
  C5 (amended). For every key \<open>k\<close> and value \<open>v\<close> that contain no opening bracket, \<open>v\<close>
  containing no \<open>##\<close> followed by a digit: \<open>Set(k, v)\<close> on an empty container, \<open>Serialize\<close>,
  the constructor on that text and \<open>Get(k, "")\<close> return exactly \<open>v\<close>; the separators
  \<open>:\<close>, \<open>,\<close> and the escape character \<open>$\<close> in \<open>k\<close> and \<open>v\<close> survive.
\<close>

theorem scalar_roundtrip:
  "CHR ''['' \<notin> set k \<Longrightarrow> CHR ''['' \<notin> set v \<Longrightarrow> regex_search_placeholder v = None \<Longrightarrow>
   \<exists>p. ParamPackage (Serialize (Set_string k v [])) = Inr p \<and> Get_string k [] p = v"
proof -
  assume k: "CHR ''['' \<notin> set k" and v: "CHR ''['' \<notin> set v"
    and ph: "regex_search_placeholder v = None"
  have data: "Set_string k v [] = [(k, v)]"
    by (simp add: Set_string_def)
  have "ParamPackage (Serialize [(k, v)]) = Inr [(k, v)]"
    using k v ph
    by (intro ParamPackage_Serialize) (simp_all add: wf_data_def no_brackets_def no_placeholders_def)
  moreover have "Get_string k [] [(k, v)] = v"
    by (simp add: Get_string_def find_key_def)
  ultimately show ?thesis
    by (simp add: data)
qed

theorem scalar_roundtrip_witness:
  "CHR ''['' \<notin> set ''a'' \<and> CHR ''['' \<notin> set ''x:y,z$w'' \<and>
   regex_search_placeholder ''x:y,z$w'' = None \<and>
   (\<exists>p. ParamPackage (Serialize (Set_string ''a'' ''x:y,z$w'' [])) = Inr p \<and>
        Get_string ''a'' [] p = ''x:y,z$w'')"
proof -
  have 1: "CHR ''['' \<notin> set ''a''" by simp
  have 2: "CHR ''['' \<notin> set ''x:y,z$w''" by simp
  have 3: "regex_search_placeholder ''x:y,z$w'' = None" by code_simp
  from scalar_roundtrip [OF 1 2 3] 1 2 3 show ?thesis by blast
qed

text \<open>
  C6 (as stated, refuted). For the distinct containers \<open>{a: 1}\<close> and \<open>{b: 2}\<close> the stored
  text is \<open>[a:1|b:2]\<close>, which has no \<open>,\<close>: the getter takes it for a list of primitive
  values and returns its default.
\<close>

theorem package_vec_roundtrip_counterexample:
  "\<not> (\<forall>B1 B2 key A. wf_data B1 \<and> wf_data B2 \<and> wf_data A \<and> B1 \<noteq> B2 \<longrightarrow>
        Get_package_vec key [] (Set_package_vec key [B1, B2] A) = Inr [B1, B2])"
proof
  assume a: "\<forall>B1 B2 key A. wf_data B1 \<and> wf_data B2 \<and> wf_data A \<and> B1 \<noteq> B2 \<longrightarrow>
        Get_package_vec key [] (Set_package_vec key [B1, B2] A) = Inr [B1, B2]"
  have w: "wf_data [(''a'', ''1'')] \<and> wf_data [(''b'', ''2'')] \<and> wf_data []"
    by (simp add: wf_data_def)
  have ne: "[(''a'', ''1'')] \<noteq> [(''b'', ''2'')]" by simp
  have c: "Get_package_vec ''k'' [] (Set_package_vec ''k'' [[(''a'', ''1'')], [(''b'', ''2'')]] []) = Inr []"
    by code_simp
  from a w ne
  have "Get_package_vec ''k'' [] (Set_package_vec ''k'' [[(''a'', ''1'')], [(''b'', ''2'')]] []) =
      Inr [[(''a'', ''1'')], [(''b'', ''2'')]]"
    by blast
  with c show False by simp
qed

text \<open>
  C6 (amended). After \<open>Set(key, {B1, B2})\<close> on any container the stored value is \<open>[\<close>,
  \<open>B1.Serialize()\<close>, \<open>|\<close>, \<open>B2.Serialize()\<close>, \<open>]\<close>. For non-empty containers \<open>B1\<close> and
  \<open>B2\<close> whose keys and values contain none of \<open>[\<close>, \<open>|\<close> and \<open>#\<close>, at least one of them
  with two or more keys, the list-of-containers getter returns \<open>B1\<close> and \<open>B2\<close>, in this
  order.
\<close>

theorem package_vec_roundtrip:
  "find_key (Set_package_vec key [B1, B2] A) key =
     Some (''['' @ Serialize B1 @ ''|'' @ Serialize B2 @ '']'') \<and>
   (wf_data B1 \<and> wf_data B2 \<and> plain_data B1 \<and> plain_data B2 \<and> B1 \<noteq> [] \<and> B2 \<noteq> [] \<and>
      (2 \<le> length B1 \<or> 2 \<le> length B2) \<longrightarrow>
    Get_package_vec key d (Set_package_vec key [B1, B2] A) = Inr [B1, B2])"
proof (intro conjI impI)
  define val where "val = Serialize B1 @ ''|'' @ Serialize B2"
  have stored: "find_key (Set_package_vec key [B1, B2] A) key = Some (''['' @ val @ '']'')"
    by (simp add: Set_package_vec_def find_key_insert_or_assign val_def LIST_SEPARATOR_def)
  then show "find_key (Set_package_vec key [B1, B2] A) key =
      Some (''['' @ Serialize B1 @ ''|'' @ Serialize B2 @ '']'')"
    by (simp add: val_def)
  assume a: "wf_data B1 \<and> wf_data B2 \<and> plain_data B1 \<and> plain_data B2 \<and> B1 \<noteq> [] \<and> B2 \<noteq> [] \<and>
      (2 \<le> length B1 \<or> 2 \<le> length B2)"
  then have ne1: "B1 \<noteq> []" and ne2: "B2 \<noteq> []"
    and pl1: "plain_data B1" and pl2: "plain_data B2" by simp_all
  note p1 = plain_data_Serialize [OF ne1 pl1]
  note p2 = plain_data_Serialize [OF ne2 pl2]
  have nb: "CHR ''['' \<notin> set val"
    using p1(1) p2(1) by (simp add: val_def)
  have comma: "PARAM_SEPARATOR \<in> set val"
    using a PARAM_SEPARATOR_in_Serialize [of B1] PARAM_SEPARATOR_in_Serialize [of B2]
    by (auto simp: val_def)
  have split: "SplitString val LIST_SEPARATOR = [Serialize B1, Serialize B2]"
    using p1(2) p2(2)
    by (simp add: val_def LIST_SEPARATOR_def SplitString_append SplitString_no_delim)
  have restore: "restore_all [Serialize B1, Serialize B2] [] = Inr [Serialize B1, Serialize B2]"
    using p1(3) p2(3) by (simp add: ReplacePlaceholders_plain placeholder_none)
  have construct: "construct_all [Serialize B1, Serialize B2] = Inr [B1, B2]"
    using a by (simp add: plain_data_roundtrip)
  have "Get_package_vec key d (Set_package_vec key [B1, B2] A) =
      construct_all [Serialize B1, Serialize B2]"
    using stored PlaceholderifyData_plain [OF nb] comma
  proof (rule Get_package_vec_bracketed)
    show "restore_all (SplitString val LIST_SEPARATOR) [] = Inr [Serialize B1, Serialize B2]"
      by (simp only: split restore)
  qed
  with construct
  show "Get_package_vec key d (Set_package_vec key [B1, B2] A) = Inr [B1, B2]"
    by simp
qed

theorem package_vec_roundtrip_witness:
  "wf_data [(''a'', ''1''), (''b'', ''2'')] \<and> wf_data [(''c'', ''3''), (''d'', ''4'')] \<and>
   plain_data [(''a'', ''1''), (''b'', ''2'')] \<and> plain_data [(''c'', ''3''), (''d'', ''4'')] \<and>
   find_key
       (Set_package_vec ''k'' [[(''a'', ''1''), (''b'', ''2'')], [(''c'', ''3''), (''d'', ''4'')]] [])
       ''k'' = Some ''[a:1,b:2|c:3,d:4]'' \<and>
   Get_package_vec ''k'' []
       (Set_package_vec ''k'' [[(''a'', ''1''), (''b'', ''2'')], [(''c'', ''3''), (''d'', ''4'')]] []) =
     Inr [[(''a'', ''1''), (''b'', ''2'')], [(''c'', ''3''), (''d'', ''4'')]]"
proof -
  have w1: "wf_data [(''a'', ''1''), (''b'', ''2'')]" by code_simp
  have w2: "wf_data [(''c'', ''3''), (''d'', ''4'')]" by code_simp
  have p1: "plain_data [(''a'', ''1''), (''b'', ''2'')]" by code_simp
  have p2: "plain_data [(''c'', ''3''), (''d'', ''4'')]" by code_simp
  have s1: "Serialize [(''a'', ''1''), (''b'', ''2'')] = ''a:1,b:2''" by code_simp
  have s2: "Serialize [(''c'', ''3''), (''d'', ''4'')] = ''c:3,d:4''" by code_simp
  from package_vec_roundtrip
    [of "''k''" "[(''a'', ''1''), (''b'', ''2'')]" "[(''c'', ''3''), (''d'', ''4'')]" "[]" "[]"]
    w1 w2 p1 p2
  show ?thesis
    by (simp add: s1 s2)
qed

section \<open>Where the code leaves its documented behaviour\<close>

text \<open>
  C1. \<open>Set(key, ParamPackage)\<close> stores \<open>Serialize()\<close> of the nested container without
  brackets around it, so the nested-container getter, which asks for brackets, returns
  its default: with \<open>B = {a: 1, b: 2}\<close> stored under \<open>outer\<close> in an empty container, the
  stored text is \<open>a:1,b:2\<close> and \<open>Get("outer", ParamPackage{})\<close> is the empty container.
\<close>

theorem Set_package_stores_no_brackets:
  "find_key (Set_package ''outer'' [(''a'', ''1''), (''b'', ''2'')] []) ''outer''
     = Some ''a:1,b:2'' \<and>
   Get_package ''outer'' [] (Set_package ''outer'' [(''a'', ''1''), (''b'', ''2'')] [])
     = Inr []"
  by code_simp

text \<open>
  C2. The containers that the list setters build do not come back from their own
  serialised text. \<open>Set("k", {"a", "b"})\<close> stores \<open>[a|b]\<close>, which serialises to \<open>k:[a|b]\<close>;
  \<open>Set("k", {B1, B2})\<close> with \<open>B1 = {a: 1, b: 2}\<close> and \<open>B2 = {c: 3, d: 4}\<close> stores
  \<open>[a:1,b:2|c:3,d:4]\<close>. On either text the constructor masks the bracketed value as
  \<open>##0\<close> and then throws \<open>std::invalid_argument\<close> out of \<open>ReplacePlaceholders\<close>: there is
  no reconstructed container to compare.
\<close>

theorem roundtrip_fails_on_bracketed_values:
  "Set_string_vec ''k'' [''a'', ''b''] [] = [(''k'', ''[a|b]'')] \<and>
   Serialize [(''k'', ''[a|b]'')] = ''k:[a|b]'' \<and>
   ParamPackage ''k:[a|b]'' = Inl InvalidArgument \<and>
   ParamPackage
     (Serialize
        (Set_package_vec ''k'' [[(''a'', ''1''), (''b'', ''2'')], [(''c'', ''3''), (''d'', ''4'')]] []))
     = Inl InvalidArgument"
  by code_simp

text \<open>
  C3. The constructor on \<open>a:[b]\<close> throws \<open>std::invalid_argument\<close> to its caller, as it
  does on the text that \<open>Serialize\<close> gives for a container holding the list \<open>{"a", "b"}\<close>;
  the list-of-string getter on a stored empty string calls \<open>front()\<close> on an empty string.
\<close>

theorem constructor_throws:
  "ParamPackage ''a:[b]'' = Inl InvalidArgument \<and>
   ParamPackage (Serialize (Set_string_vec ''k'' [''a'', ''b''] [])) = Inl InvalidArgument \<and>
   Get_string_vec ''k'' [] (Set_string ''k'' [] []) = Inl UndefinedBehaviour"
  by code_simp

text \<open>
  C4. \<open>Serialize\<close> escapes every value, in brackets or not: the list of two nested
  containers that \<open>Set("k", {B1, B2})\<close> stores as \<open>[a:1,b:2|c:3,d:4]\<close> comes out with
  its separators escaped.
\<close>

theorem Serialize_escapes_bracketed_value:
  "find_key (Set_package_vec ''k'' [[(''a'', ''1''), (''b'', ''2'')], [(''c'', ''3''), (''d'', ''4'')]] [])
       ''k'' = Some ''[a:1,b:2|c:3,d:4]'' \<and>
   Serialize (Set_package_vec ''k'' [[(''a'', ''1''), (''b'', ''2'')], [(''c'', ''3''), (''d'', ''4'')]] [])
     = ''k:[a$01$1b$02|c$03$1d$04]''"
  by code_simp

lemma ReplacePlaceholders_throws:
  "regex_search_placeholder str \<noteq> None \<Longrightarrow>
   ReplacePlaceholders str lookup = Inl InvalidArgument"
  by (subst ReplacePlaceholders.simps) (auto simp: replace_submatches_throws)

text \<open>
  C10. The text \<open>[a]\<close> holds no placeholder. \<open>PlaceholderifyData\<close> turns it into \<open>##0\<close>
  and fills a table; \<open>ReplacePlaceholders\<close> on \<open>##0\<close> throws \<open>std::invalid_argument\<close>,
  whatever the table holds, instead of returning \<open>[a]\<close>.
\<close>

theorem ReplacePlaceholders_not_inverse:
  "regex_search_placeholder ''[a]'' = None \<and>
   (\<exists>table. PlaceholderifyData ''[a]'' [] = Inr (''##0'', table)) \<and>
   ReplacePlaceholders ''##0'' lookup = Inl InvalidArgument"
proof (intro conjI)
  show "regex_search_placeholder ''[a]'' = None"
    by code_simp
  have "PlaceholderifyData ''[a]'' [] = Inr (''##0'', [''##0''])"
    by code_simp
  then show "\<exists>table. PlaceholderifyData ''[a]'' [] = Inr (''##0'', table)"
    by blast
  have "regex_search_placeholder ''##0'' \<noteq> None"
    by code_simp
  then show "ReplacePlaceholders ''##0'' lookup = Inl InvalidArgument"
    by (rule ReplacePlaceholders_throws)
qed

end
